theory Spec2Isabelle
  imports Main
begin

section \<open>Python strings\<close>

text \<open>
  A Python \<open>str\<close> is a sequence of code points. The model uses \<^typ>\<open>string\<close>, so a
  character is a code point below 256; the whitespace and line-boundary tables below are
  Python's, cut to that range.
\<close>

definition isspace :: "char \<Rightarrow> bool" where
  \<comment> \<open>the characters \<open>str.strip()\<close> removes\<close>
  "isspace c = (c \<in> set [CHR 0x09, CHR 0x0A, CHR 0x0B, CHR 0x0C, CHR 0x0D,
                           CHR 0x1C, CHR 0x1D, CHR 0x1E, CHR 0x1F, CHR 0x20,
                           CHR 0x85, CHR 0xA0])"

definition strip :: "string \<Rightarrow> string" where
  "strip s = rev (dropWhile isspace (rev (dropWhile isspace s)))"

definition is_linebreak :: "char \<Rightarrow> bool" where
  \<comment> \<open>the single-character line boundaries of \<open>str.splitlines()\<close>\<close>
  "is_linebreak c = (c \<in> set [CHR 0x0A, CHR 0x0B, CHR 0x0C, CHR 0x0D,
                                CHR 0x1C, CHR 0x1D, CHR 0x1E, CHR 0x85])"

fun splitlines_from :: "string \<Rightarrow> string \<Rightarrow> string list" where
  \<comment> \<open>\<open>line\<close> is the part of the current line read so far; \<open>\r\n\<close> is one boundary;
      no empty last line is produced\<close>
  "splitlines_from line [] = (if line = [] then [] else [line])"
| "splitlines_from line (c # cs) =
     (if c = CHR 0x0D then
        (case cs of
           d # ds \<Rightarrow> if d = CHR 0x0A then line # splitlines_from [] ds
                     else line # splitlines_from [] cs
         | [] \<Rightarrow> line # splitlines_from [] cs)
      else if is_linebreak c then line # splitlines_from [] cs
      else splitlines_from (line @ [c]) cs)"

definition splitlines :: "string \<Rightarrow> string list" where
  "splitlines s = splitlines_from [] s"

fun join :: "string \<Rightarrow> string list \<Rightarrow> string" where
  \<comment> \<open>\<open>sep.join(xs)\<close>\<close>
  "join sep [] = []"
| "join sep [x] = x"
| "join sep (x # y # ys) = x @ sep @ join sep (y # ys)"

definition digit :: "nat \<Rightarrow> char" where
  "digit d = ''0123456789'' ! (d mod 10)"

function str_nat :: "nat \<Rightarrow> string" where
  "str_nat n = (if n < 10 then [digit n] else str_nat (n div 10) @ [digit (n mod 10)])"
  by pat_completeness auto
termination
  by (relation "measure id") auto

declare str_nat.simps [simp del]

definition str_int :: "int \<Rightarrow> string" where
  \<comment> \<open>how an f-string formats an \<open>int\<close>\<close>
  "str_int i = (if i < 0 then ''-'' @ str_nat (nat (- i)) else str_nat (nat i))"

section \<open>The pattern \<open>\[(.*?)\]\<close>\<close>

text \<open>
  \<open>re.findall\<close> with one capturing group returns the captured texts of the
  non-overlapping matches, left to right. A match starts at a \<open>[\<close>; the lazy \<open>.*?\<close>
  takes as few characters as possible, none of them a line feed (\<open>.\<close> without DOTALL),
  up to the first \<open>]\<close>. Where no match starts, the search moves on by one character.
\<close>

fun scan_close :: "string \<Rightarrow> string \<Rightarrow> (string \<times> string) option" where
  \<comment> \<open>after a \<open>[\<close>: the captured text and the rest after the closing \<open>]\<close>\<close>
  "scan_close captured [] = None"
| "scan_close captured (c # cs) =
     (if c = CHR '']'' then Some (captured, cs)
      else if c = CHR 0x0A then None
      else scan_close (captured @ [c]) cs)"

lemma scan_close_shorter: "scan_close captured s = Some (m, rest) \<Longrightarrow> length rest < length s"
  by (induction s arbitrary: captured) (auto split: if_splits intro: less_SucI)

function findall :: "string \<Rightarrow> string list" where
  "findall [] = []"
| "findall (c # cs) =
     (if c = CHR ''[''
      then (case scan_close [] cs of
              Some (m, rest) \<Rightarrow> m # findall rest
            | None \<Rightarrow> findall cs)
      else findall cs)"
  by pat_completeness auto
termination
  by (relation "measure length") (auto dest: scan_close_shorter)

section \<open>Insertion-ordered keys\<close>

definition setdefault_key :: "'a \<Rightarrow> 'a list \<Rightarrow> 'a list" where
  \<comment> \<open>\<open>d[k] = None\<close> on the key order of an ordered dict: a new key goes last, a key
      already present keeps its place\<close>
  "setdefault_key k ks = (if k \<in> set ks then ks else ks @ [k])"

definition fromkeys :: "'a list \<Rightarrow> 'a list" where
  \<comment> \<open>\<open>list(OrderedDict.fromkeys(xs))\<close>\<close>
  "fromkeys xs = fold setdefault_key xs []"

section \<open>JSON values and HTTP responses\<close>

text \<open>
  What \<open>response.json()\<close> gives is a Python value built from JSON. A number is kept as an
  integer: none of the functions below looks into one. An object is the list of its items,
  one per key.
\<close>

datatype json =
    JNull
  | JBool bool
  | JNum int
  | JStr string
  | JArr "json list"
  | JObj "(string \<times> json) list"

datatype py_error =
    HTTPError | ConnectionError | JSONDecodeError | KeyError | TypeError | AttributeError
  | ValueError

type_synonym headers = "(string \<times> string) list"

record response =
  status_code :: int
  reason :: string
  body :: "json option"  \<comment> \<open>\<open>None\<close> when the body is not JSON\<close>

text \<open>
  \<open>requests.get\<close> and \<open>requests.post\<close> are functions of the URL, the JSON payload (for a
  POST) and the headers; each returns a response, or raises when no response arrives.
\<close>

record requests =
  requests_get :: "string \<Rightarrow> headers \<Rightarrow> py_error + response"
  requests_post :: "string \<Rightarrow> json \<Rightarrow> headers \<Rightarrow> py_error + response"

definition raise_for_status :: "response \<Rightarrow> py_error + unit" where
  \<comment> \<open>of the \<open>requests\<close> library: \<open>HTTPError\<close> for a 4xx or 5xx status, nothing otherwise\<close>
  "raise_for_status r =
     (if 400 \<le> status_code r \<and> status_code r < 600 then Inl HTTPError else Inr ())"

definition response_json :: "response \<Rightarrow> py_error + json" where
  "response_json r = (case body r of None \<Rightarrow> Inl JSONDecodeError | Some j \<Rightarrow> Inr j)"

fun py_getitem :: "json \<Rightarrow> string \<Rightarrow> py_error + json" where
  \<comment> \<open>\<open>v[key]\<close> for a string key\<close>
  "py_getitem (JObj items) key =
     (case map_of items key of None \<Rightarrow> Inl KeyError | Some v \<Rightarrow> Inr v)"
| "py_getitem v key = Inl TypeError"

fun py_get :: "json \<Rightarrow> string \<Rightarrow> py_error + json" where
  \<comment> \<open>\<open>v.get(key)\<close>: only a dict has the method\<close>
  "py_get (JObj items) key =
     (case map_of items key of None \<Rightarrow> Inr JNull | Some v \<Rightarrow> Inr v)"
| "py_get v key = Inl AttributeError"

fun py_strip :: "json \<Rightarrow> py_error + string" where
  \<comment> \<open>\<open>v.strip()\<close>: only a string has the method\<close>
  "py_strip (JStr s) = Inr (strip s)"
| "py_strip v = Inl AttributeError"

fun substring :: "string \<Rightarrow> string \<Rightarrow> bool" where
  "substring p [] = (p = [])"
| "substring p (c # cs) = (take (length p) (c # cs) = p \<or> substring p cs)"

fun py_in :: "string \<Rightarrow> json \<Rightarrow> py_error + bool" where
  \<comment> \<open>\<open>p in v\<close> for a string \<open>p\<close>\<close>
  "py_in p (JStr s) = Inr (substring p s)"
| "py_in p (JArr vs) = Inr (JStr p \<in> set vs)"
| "py_in p (JObj items) = Inr (p \<in> set (map fst items))"
| "py_in p v = Inl TypeError"

fun py_remove :: "'a \<Rightarrow> 'a list \<Rightarrow> py_error + 'a list" where
  \<comment> \<open>\<open>xs.remove(a)\<close>: the list without the first \<open>a\<close>\<close>
  "py_remove a [] = Inl ValueError"
| "py_remove a (x # xs) =
     (if x = a then Inr xs
      else (case py_remove a xs of Inl e \<Rightarrow> Inl e | Inr xs' \<Rightarrow> Inr (x # xs')))"

lemma py_remove_shorter: "py_remove a xs = Inr xs' \<Longrightarrow> length xs' < length xs"
  by (induction xs arbitrary: xs') (auto split: if_splits sum.splits)

function remove_while_present :: "'a \<Rightarrow> 'a list \<Rightarrow> (py_error + unit) \<times> 'a list" where
  \<comment> \<open>\<open>while a in xs: xs.remove(a)\<close>, with the list as the loop leaves it\<close>
  "remove_while_present a xs =
     (if a \<in> set xs
      then (case py_remove a xs of
              Inl e \<Rightarrow> (Inl e, xs)
            | Inr xs' \<Rightarrow> remove_while_present a xs')
      else (Inr (), xs))"
  by pat_completeness auto
termination
  by (relation "measure (\<lambda>(a, xs). length xs)") (auto dest: py_remove_shorter)

declare remove_while_present.simps [simp del]

section \<open>Reviewers of a commit range\<close>

text \<open>
  \<open>RunCmd\<close> and \<open>RunPythonScript\<close> belong to \<open>edk2toollib\<close>. Each is given as a
  function from the command (or script path), its parameters and the working directory
  to the exit status and the text written to the output stream: the same invocation is
  answered the same way each time it is made. What a call does is recorded as a list of
  events, in the order they happen.
\<close>

record collaborators =
  RunCmd :: "string \<Rightarrow> string \<Rightarrow> string \<Rightarrow> int \<times> string"
  RunPythonScript :: "string \<Rightarrow> string \<Rightarrow> string \<Rightarrow> int \<times> string"

datatype event =
    Invoke_RunCmd string string string
  | Invoke_RunPythonScript string string string
  | Http_Get string headers
  | Http_Post string json headers
  | Print string
  | Print_value string json  \<comment> \<open>a line made of the text and \<open>str\<close> of the value\<close>

datatype early_return =
    Commit_Lookup_Error    \<comment> \<open>the \<open>return []\<close> after a failed \<open>git log\<close>\<close>
  | Reviewer_Lookup_Error  \<comment> \<open>the \<open>return []\<close> after a failed maintainer script\<close>
  | No_Matches             \<comment> \<open>the \<open>return []\<close> under \<open>if not matches\<close>\<close>

fun reviewer_loop ::
  "collaborators \<Rightarrow> string \<Rightarrow> string \<Rightarrow> string list \<Rightarrow> string list
     \<Rightarrow> (early_return + string list) \<times> event list" where
  "reviewer_loop env workspace_path maintainer_file_path [] raw_reviewers =
     (Inr raw_reviewers, [])"
| "reviewer_loop env workspace_path maintainer_file_path (commit_sha # commits) raw_reviewers =
     (let params = ''-g '' @ commit_sha;
          call = Invoke_RunPythonScript maintainer_file_path params workspace_path;
          (cmd_ret, commit_reviewers) =
             RunPythonScript env maintainer_file_path params workspace_path
      in if cmd_ret \<noteq> 0 then
           (Inl Reviewer_Lookup_Error,
            [call,
             Print (''::error title=Reviewer Lookup Error!::Error calling GetMaintainer.py: [''
                    @ str_int cmd_ret @ '']: '' @ commit_reviewers)])
         else
           (let matches = findall commit_reviewers
            in if matches = [] then (Inl No_Matches, [call])
               else
                 (case reviewer_loop env workspace_path maintainer_file_path commits
                         (raw_reviewers @ matches) of
                    (r, evs) \<Rightarrow>
                      (r,
                       call #
                       Print (''::debug title=Commit '' @ take 7 commit_sha
                              @ '' Reviewer(s)::'' @ join '', '' matches) #
                       evs))))"

definition aggregate :: "string list \<Rightarrow> string list \<times> event list" where
  "aggregate raw_reviewers =
     (let reviewers = fromkeys (map strip raw_reviewers)
      in (reviewers, [Print (''::debug title=Total Reviewer Set::'' @ join '', '' reviewers)]))"

definition reviewers_of_commits ::
  "collaborators \<Rightarrow> string \<Rightarrow> string \<Rightarrow> string list
     \<Rightarrow> (early_return + string list) \<times> event list" where
  \<comment> \<open>the function from \<open>raw_reviewers = []\<close> on\<close>
  "reviewers_of_commits env workspace_path maintainer_file_path commits =
     (case reviewer_loop env workspace_path maintainer_file_path commits [] of
        (Inl e, evs) \<Rightarrow> (Inl e, evs)
      | (Inr raw_reviewers, evs) \<Rightarrow>
          (case aggregate raw_reviewers of (reviewers, evs') \<Rightarrow> (Inr reviewers, evs @ evs')))"

definition resolve_commits ::
  "collaborators \<Rightarrow> string \<Rightarrow> string \<Rightarrow> string
     \<Rightarrow> (early_return + string list) \<times> event list" where
  \<comment> \<open>the function up to \<open>commits = ...\<close>\<close>
  "resolve_commits env workspace_path range_start range_end =
     (if range_start = range_end then (Inr [range_start], [])
      else
        (let params = ''log --format=format:%H '' @ range_start @ ''..'' @ range_end;
             call = Invoke_RunCmd ''git'' params workspace_path;
             (cmd_ret, commit_stream) = RunCmd env ''git'' params workspace_path
         in if cmd_ret \<noteq> 0 then
              (Inl Commit_Lookup_Error,
               [call,
                Print (''::error title=Commit Lookup Error!::Error getting branch commits: [''
                       @ str_int cmd_ret @ '']: '' @ commit_stream)])
            else (Inr (splitlines commit_stream), [call])))"

definition get_reviewers_for_range_path ::
  "collaborators \<Rightarrow> string \<Rightarrow> string \<Rightarrow> string \<Rightarrow> string
     \<Rightarrow> (early_return + string list) \<times> event list" where
  \<comment> \<open>\<open>get_reviewers_for_range\<close>, with the \<open>return\<close> statement it leaves by\<close>
  "get_reviewers_for_range_path env workspace_path maintainer_file_path range_start range_end =
     (case resolve_commits env workspace_path range_start range_end of
        (Inl e, evs) \<Rightarrow> (Inl e, evs)
      | (Inr commits, evs) \<Rightarrow>
          (case reviewers_of_commits env workspace_path maintainer_file_path commits of
             (r, evs') \<Rightarrow> (r, evs @ evs')))"

definition get_reviewers_for_range ::
  "collaborators \<Rightarrow> string \<Rightarrow> string \<Rightarrow> string \<Rightarrow> string \<Rightarrow> string list \<times> event list" where
  \<comment> \<open>the returned list and what the call did, in order\<close>
  "get_reviewers_for_range env workspace_path maintainer_file_path range_start range_end =
     (case get_reviewers_for_range_path env workspace_path maintainer_file_path
             range_start range_end of
        (Inl e, evs) \<Rightarrow> ([], evs)
      | (Inr reviewers, evs) \<Rightarrow> (reviewers, evs))"

section \<open>Pull requests\<close>

definition api_headers :: "string \<Rightarrow> headers" where
  "api_headers token =
     [(''Authorization'', ''Bearer '' @ token),
      (''Accept'', ''application/vnd.github.v3+json'')]"

definition pulls_url :: "string \<Rightarrow> string \<Rightarrow> string \<Rightarrow> string" where
  "pulls_url owner repo pr_number =
     ''https://api.github.com/repos/'' @ owner @ ''/'' @ repo @ ''/pulls/'' @ pr_number"

definition requested_reviewers_url :: "string \<Rightarrow> string \<Rightarrow> string \<Rightarrow> string" where
  "requested_reviewers_url owner repo pr_number =
     ''https://api.github.com/repos/'' @ owner @ ''/'' @ repo @ ''/pulls/'' @ pr_number
     @ ''/requested_reviewers''"

definition comments_url :: "string \<Rightarrow> string \<Rightarrow> string \<Rightarrow> string" where
  "comments_url owner repo pr_number =
     ''https://api.github.com/repos/'' @ owner @ ''/'' @ repo @ ''/issues/'' @ pr_number
     @ ''/comments''"

definition leave_pr_comment ::
  "requests \<Rightarrow> string \<Rightarrow> string \<Rightarrow> string \<Rightarrow> string \<Rightarrow> string
     \<Rightarrow> (py_error + unit) \<times> event list" where
  "leave_pr_comment http token owner repo pr_number comment_body =
     (let url = comments_url owner repo pr_number;
          headers = api_headers token;
          data = JObj [(''body'', JStr comment_body)];
          call = Http_Post url data headers
      in case requests_post http url data headers of
           Inl e \<Rightarrow> (Inl e, [call])
         | Inr response \<Rightarrow>
             (case raise_for_status response of
                Inl e \<Rightarrow> (Inl e, [call])
              | Inr u \<Rightarrow> (Inr (), [call])))"

definition get_pr_sha ::
  "requests \<Rightarrow> string \<Rightarrow> string \<Rightarrow> string \<Rightarrow> string \<Rightarrow> (py_error + json) \<times> event list" where
  "get_pr_sha http token owner repo pr_number =
     (let url = pulls_url owner repo pr_number;
          headers = api_headers token;
          call = Http_Get url headers
      in case requests_get http url headers of
           Inl e \<Rightarrow> (Inl e, [call])
         | Inr response \<Rightarrow>
             (case raise_for_status response of
                Inl e \<Rightarrow>
                  (if e = HTTPError then
                     (Inr (JStr []),
                      [call,
                       Print (''::error title=HTTP Error!::Error getting PR Commit Info: ''
                              @ reason response)])
                   else (Inl e, [call]))
              | Inr u \<Rightarrow>
                  (case response_json response of
                     Inl e \<Rightarrow> (Inl e, [call])
                   | Inr j \<Rightarrow>
                       (case py_getitem j ''merge_commit_sha'' of
                          Inl e \<Rightarrow> (Inl e, [call])
                        | Inr commit_sha \<Rightarrow>
                            (Inr commit_sha,
                             [call,
                              Print_value (''::debug title=PR '' @ pr_number @ '' Commit SHA::'')
                                commit_sha])))))"

definition pr_author_of :: "response \<Rightarrow> py_error + string" where
  \<comment> \<open>\<open>response.json().get("user").get("login").strip()\<close>\<close>
  "pr_author_of response =
     (case response_json response of
        Inl e \<Rightarrow> Inl e
      | Inr j \<Rightarrow>
          (case py_get j ''user'' of
             Inl e \<Rightarrow> Inl e
           | Inr user \<Rightarrow>
               (case py_get user ''login'' of
                  Inl e \<Rightarrow> Inl e
                | Inr login \<Rightarrow> py_strip login)))"

definition not_collaborator_comment :: "string list \<Rightarrow> string" where
  "not_collaborator_comment user_names =
     ''&#9888; **WARNING: Cannot add reviewers**: A user specified as a ''
     @ ''reviewer for this PR is not a collaborator ''
     @ ''of the edk2 repository. Please add them as a collaborator to the ''
     @ ''repository and re-request the review.'' @ [CHR 0x0A, CHR 0x0A]
     @ ''Users requested:'' @ [CHR 0x0A] @ join '', '' user_names"

definition on_reviewers_response ::
  "requests \<Rightarrow> string \<Rightarrow> string \<Rightarrow> string \<Rightarrow> string \<Rightarrow> string list \<Rightarrow> response
     \<Rightarrow> (py_error + unit) \<times> event list" where
  \<comment> \<open>\<open>add_reviewers_to_pr\<close> from \<open>try:\<close> on, given the response to the POST\<close>
  "on_reviewers_response http token owner repo pr_number user_names response =
     (case raise_for_status response of
        Inr u \<Rightarrow> (Inr (), [])
      | Inl e \<Rightarrow>
          (if e \<noteq> HTTPError then (Inl e, [])
           else if status_code response = 422 then
             (case response_json response of
                Inl e \<Rightarrow> (Inl e, [])
              | Inr j \<Rightarrow>
                  (case py_get j ''message'' of
                     Inl e \<Rightarrow> (Inl e, [])
                   | Inr message \<Rightarrow>
                       (case py_in ''Reviews may only be requested from collaborators'' message of
                          Inl e \<Rightarrow> (Inl e, [])
                        | Inr found \<Rightarrow>
                            (if found then
                               (case leave_pr_comment http token owner repo pr_number
                                       (not_collaborator_comment user_names) of
                                  (r, evs) \<Rightarrow>
                                    (r,
                                     Print_value ''::error title=User is not a Collaborator!::''
                                       message # evs))
                             else
                               (Inr (),
                                [Print (''::error title=Invalid Request!::The request is invalid. ''
                                        @ ''Verify the API request string.'')])))))
           else (Inr (), [])))"

definition reviewers_payload :: "string list \<Rightarrow> json" where
  \<comment> \<open>\<open>{"reviewers": user_names}\<close>\<close>
  "reviewers_payload user_names = JObj [(''reviewers'', JArr (map JStr user_names))]"

definition add_reviewers_to_pr ::
  "requests \<Rightarrow> string \<Rightarrow> string \<Rightarrow> string \<Rightarrow> string \<Rightarrow> string list
     \<Rightarrow> (py_error + unit) \<times> string list \<times> event list" where
  \<comment> \<open>how the call ends, the caller's list \<open>user_names\<close> as the call leaves it, and what
      the call did\<close>
  "add_reviewers_to_pr http token owner repo pr_number user_names =
     (let headers = api_headers token;
          pr_author_url = pulls_url owner repo pr_number;
          url = requested_reviewers_url owner repo pr_number;
          get_call = Http_Get pr_author_url headers
      in case requests_get http pr_author_url headers of
           Inl e \<Rightarrow> (Inl e, user_names, [get_call])
         | Inr response \<Rightarrow>
             (if status_code response \<noteq> 200 then
                (Inr (), user_names,
                 [get_call,
                  Print (''::error title=HTTP Error!::Error getting PR author: ''
                         @ reason response)])
              else
                (case pr_author_of response of
                   Inl e \<Rightarrow> (Inl e, user_names, [get_call])
                 | Inr pr_author \<Rightarrow>
                     (case remove_while_present pr_author user_names of
                        (Inl e, user_names') \<Rightarrow> (Inl e, user_names', [get_call])
                      | (Inr u, user_names') \<Rightarrow>
                          (let data = reviewers_payload user_names';
                               post_call = Http_Post url data headers
                           in case requests_post http url data headers of
                                Inl e \<Rightarrow> (Inl e, user_names', [get_call, post_call])
                              | Inr response \<Rightarrow>
                                  (case on_reviewers_response http token owner repo pr_number
                                          user_names' response of
                                     (r, evs) \<Rightarrow>
                                       (r, user_names', get_call # post_call # evs)))))))"

definition always_respond :: "response \<Rightarrow> requests" where
  \<comment> \<open>a server that answers every request with the same response\<close>
  "always_respond r =
     \<lparr> requests_get = (\<lambda>url headers. Inr r),
       requests_post = (\<lambda>url data headers. Inr r) \<rparr>"

section \<open>Terms the properties are stated in\<close>

definition commit_status :: "collaborators \<Rightarrow> string \<Rightarrow> string \<Rightarrow> string \<Rightarrow> int" where
  \<comment> \<open>\<open>cmd_ret\<close> of the maintainer script for one commit\<close>
  "commit_status env workspace_path maintainer_file_path commit_sha =
     fst (RunPythonScript env maintainer_file_path (''-g '' @ commit_sha) workspace_path)"

definition commit_matches :: "collaborators \<Rightarrow> string \<Rightarrow> string \<Rightarrow> string \<Rightarrow> string list" where
  \<comment> \<open>\<open>matches\<close> for one commit\<close>
  "commit_matches env workspace_path maintainer_file_path commit_sha =
     findall (snd (RunPythonScript env maintainer_file_path (''-g '' @ commit_sha) workspace_path))"

definition commit_ok :: "collaborators \<Rightarrow> string \<Rightarrow> string \<Rightarrow> string \<Rightarrow> bool" where
  \<comment> \<open>the iteration for this commit reaches \<open>raw_reviewers.extend(matches)\<close>\<close>
  "commit_ok env workspace_path maintainer_file_path commit_sha =
     (commit_status env workspace_path maintainer_file_path commit_sha = 0 \<and>
      commit_matches env workspace_path maintainer_file_path commit_sha \<noteq> [])"

definition maintainer_call :: "string \<Rightarrow> string \<Rightarrow> string \<Rightarrow> event" where
  "maintainer_call workspace_path maintainer_file_path commit_sha =
     Invoke_RunPythonScript maintainer_file_path (''-g '' @ commit_sha) workspace_path"

fun is_maintainer_call :: "event \<Rightarrow> bool" where
  "is_maintainer_call (Invoke_RunPythonScript path params wd) = True"
| "is_maintainer_call e = False"

fun is_git_call :: "event \<Rightarrow> bool" where
  "is_git_call (Invoke_RunCmd cmd params wd) = True"
| "is_git_call e = False"

fun is_print :: "event \<Rightarrow> bool" where
  "is_print (Print msg) = True"
| "is_print e = False"

definition first_index :: "'a \<Rightarrow> 'a list \<Rightarrow> nat" where
  \<comment> \<open>where \<open>x\<close> first occurs in \<open>xs\<close>; \<open>length xs\<close> if nowhere\<close>
  "first_index x xs = length (takeWhile (\<lambda>y. y \<noteq> x) xs)"

fun first_occurrences :: "'a list \<Rightarrow> 'a list \<Rightarrow> 'a list" where
  \<comment> \<open>the elements of the second list not in \<open>seen\<close>, each at its first occurrence\<close>
  "first_occurrences seen [] = []"
| "first_occurrences seen (x # xs) =
     (if x \<in> set seen then first_occurrences seen xs
      else x # first_occurrences (seen @ [x]) xs)"

definition fixed_replies :: "int \<Rightarrow> string \<Rightarrow> int \<Rightarrow> string \<Rightarrow> collaborators" where
  \<comment> \<open>collaborators that answer every invocation alike\<close>
  "fixed_replies git_ret git_out script_ret script_out =
     \<lparr> RunCmd = (\<lambda>cmd params wd. (git_ret, git_out)),
       RunPythonScript = (\<lambda>path params wd. (script_ret, script_out)) \<rparr>"

definition scenario_AB :: collaborators where
  \<comment> \<open>the range lists the commits A and B; the maintainer script answers for each\<close>
  "scenario_AB =
     \<lparr> RunCmd = (\<lambda>cmd params wd. (0, ''A'' @ [CHR 0x0A] @ ''B'')),
       RunPythonScript = (\<lambda>path params wd.
          if params = ''-g A'' then (0, ''Reviewed-by: [alice] [bob]'')
          else (0, ''Reviewed-by: [bob] [carol]'')) \<rparr>"

definition scenario_AB_padded :: collaborators where
  \<comment> \<open>the commits A and B again, the names now with blanks and tabs around them\<close>
  "scenario_AB_padded =
     \<lparr> RunCmd = (\<lambda>cmd params wd. (0, ''A'' @ [CHR 0x0A] @ ''B'')),
       RunPythonScript = (\<lambda>path params wd.
          if params = ''-g A''
          then (0, ''Reviewed-by: ['' @ '' '' @ ''alice'' @ '' '' @ ''] ['' @ []
                    @ ''bob'' @ [CHR 0x09] @ '']'')
          else (0, ''Reviewed-by: ['' @ [CHR 0x09] @ ''bob'' @ [] @ ''] ['' @ ''  ''
                    @ ''carol'' @ [] @ '']'')) \<rparr>"

definition mixed_case_reply :: collaborators where
  "mixed_case_reply = fixed_replies 0 [] 0 ''[bob] [ alice ] [Bob] [bob ]''"

definition second_commit_silent :: collaborators where
  \<comment> \<open>three commits; the maintainer script finds alice for the first, nothing after it\<close>
  "second_commit_silent =
     \<lparr> RunCmd = (\<lambda>cmd params wd. (0, ''c1'' @ [CHR 0x0A] @ ''c2'' @ [CHR 0x0A] @ ''c3'')),
       RunPythonScript = (\<lambda>path params wd.
          if params = ''-g c1'' then (0, ''Reviewed-by: [alice]'')
          else (0, ''no maintainer found'')) \<rparr>"

definition not_modified :: response where
  \<comment> \<open>304 Not Modified carries no body\<close>
  "not_modified = \<lparr> status_code = 304, reason = ''Not Modified'', body = None \<rparr>"

definition not_found :: response where
  "not_found = \<lparr> status_code = 404, reason = ''Not Found'',
                  body = Some (JObj [(''message'', JStr ''Not Found'')]) \<rparr>"

definition pull_request :: "string \<Rightarrow> string \<Rightarrow> response" where
  \<comment> \<open>200 with a pull request of the given author and merge commit\<close>
  "pull_request login sha =
     \<lparr> status_code = 200, reason = ''OK'',
       body = Some (JObj [(''user'', JObj [(''login'', JStr login)]),
                          (''merge_commit_sha'', JStr sha)]) \<rparr>"

fun posted_to :: "string \<Rightarrow> event \<Rightarrow> bool" where
  \<comment> \<open>the event is a POST to this URL\<close>
  "posted_to url (Http_Post u data headers) = (u = url)"
| "posted_to url e = False"

section \<open>Order-preserving removal of duplicates\<close>

lemma fold_setdefault_key: "fold setdefault_key xs acc = acc @ first_occurrences acc xs"
  by (induction xs arbitrary: acc) (simp_all add: setdefault_key_def)

lemma fromkeys_first_occurrences: "fromkeys xs = first_occurrences [] xs"
  by (simp add: fromkeys_def fold_setdefault_key)

lemma set_first_occurrences: "set (first_occurrences seen xs) = set xs - set seen"
  by (induction xs arbitrary: seen) auto

lemma distinct_first_occurrences: "distinct (first_occurrences seen xs)"
  by (induction xs arbitrary: seen) (auto simp: set_first_occurrences)

lemma first_index_Cons: "first_index a (x # xs) = (if a = x then 0 else Suc (first_index a xs))"
  by (auto simp: first_index_def)

lemma sorted_first_occurrences:
  "sorted_wrt (\<lambda>a b. first_index a xs < first_index b xs) (first_occurrences seen xs)"
proof (induction xs arbitrary: seen)
  case Nil
  then show ?case by simp
next
  case (Cons x xs)
  have step: "sorted_wrt (\<lambda>a b. first_index a (x # xs) < first_index b (x # xs))
                (first_occurrences s xs)" if "x \<in> set s" for s
  proof (rule sorted_wrt_mono_rel [OF _ Cons.IH [of s]])
    fix a b
    assume "a \<in> set (first_occurrences s xs)" "b \<in> set (first_occurrences s xs)"
      and "first_index a xs < first_index b xs"
    with that show "first_index a (x # xs) < first_index b (x # xs)"
      by (auto simp: set_first_occurrences first_index_Cons)
  qed
  show ?case
  proof (cases "x \<in> set seen")
    case True
    then show ?thesis using step [of seen] by simp
  next
    case False
    then show ?thesis using step [of "seen @ [x]"]
      by (auto simp: set_first_occurrences first_index_Cons)
  qed
qed

lemma first_index_less: "a \<in> set xs \<Longrightarrow> first_index a xs < length xs"
  by (induction xs) (auto simp: first_index_Cons)

lemma nth_first_index: "a \<in> set xs \<Longrightarrow> xs ! first_index a xs = a"
  by (induction xs) (auto simp: first_index_Cons)

lemma sorted_wrt_first_index:
  assumes "sorted_wrt P r" and "a \<in> set r" and "b \<in> set r" and "\<not> P a b" and "a \<noteq> b"
  shows "first_index b r < first_index a r"
proof (rule ccontr)
  assume "\<not> first_index b r < first_index a r"
  moreover have "first_index a r \<noteq> first_index b r"
    using assms nth_first_index by metis
  ultimately have "first_index a r < first_index b r" by simp
  then have "P (r ! first_index a r) (r ! first_index b r)"
    using assms(1,3) by (simp add: sorted_wrt_iff_nth_less first_index_less)
  then show False using assms by (simp add: nth_first_index)
qed

lemma fromkeys_set: "set (fromkeys xs) = set xs"
  by (simp add: fromkeys_first_occurrences set_first_occurrences)

lemma fromkeys_distinct: "distinct (fromkeys xs)"
  by (simp add: fromkeys_first_occurrences distinct_first_occurrences)

lemma fromkeys_order:
  assumes "a \<in> set xs" and "b \<in> set xs" and "first_index b xs < first_index a xs"
  shows "first_index b (fromkeys xs) < first_index a (fromkeys xs)"
proof -
  have "sorted_wrt (\<lambda>a b. first_index a xs < first_index b xs) (fromkeys xs)"
    by (simp add: fromkeys_first_occurrences sorted_first_occurrences)
  moreover have "a \<noteq> b" using assms(3) by auto
  ultimately show ?thesis
    using assms sorted_wrt_first_index [where a = a and b = b] by (simp add: fromkeys_set)
qed

section \<open>The loop over the commits\<close>

lemma reviewer_loop_step_ok:
  "commit_ok env ws mf c \<Longrightarrow>
   reviewer_loop env ws mf (c # cs) raw =
     (fst (reviewer_loop env ws mf cs (raw @ commit_matches env ws mf c)),
      maintainer_call ws mf c #
      Print (''::debug title=Commit '' @ take 7 c @ '' Reviewer(s)::''
             @ join '', '' (commit_matches env ws mf c)) #
      snd (reviewer_loop env ws mf cs (raw @ commit_matches env ws mf c)))"
  by (simp add: commit_ok_def commit_status_def commit_matches_def maintainer_call_def
        Let_def split_beta)

lemma reviewer_loop_step_stop:
  "\<not> commit_ok env ws mf c \<Longrightarrow>
   reviewer_loop env ws mf (c # cs) raw =
     (if commit_status env ws mf c \<noteq> 0
      then (Inl Reviewer_Lookup_Error,
            [maintainer_call ws mf c,
             Print (''::error title=Reviewer Lookup Error!::Error calling GetMaintainer.py: [''
                    @ str_int (commit_status env ws mf c) @ '']: ''
                    @ snd (RunPythonScript env mf (''-g '' @ c) ws))])
      else (Inl No_Matches, [maintainer_call ws mf c]))"
  by (simp add: commit_ok_def commit_status_def commit_matches_def maintainer_call_def
        Let_def split_beta)

lemma reviewer_loop_ok:
  "\<forall>c \<in> set commits. commit_ok env ws mf c \<Longrightarrow>
   fst (reviewer_loop env ws mf commits raw) =
     Inr (raw @ concat (map (commit_matches env ws mf) commits))"
  by (induction commits arbitrary: raw) (simp_all add: reviewer_loop_step_ok del: reviewer_loop.simps(2))

lemma reviewer_loop_stops:
  "\<forall>c \<in> set pre. commit_ok env ws mf c \<Longrightarrow> \<not> commit_ok env ws mf c \<Longrightarrow>
   fst (reviewer_loop env ws mf (pre @ c # post) raw) =
     Inl (if commit_status env ws mf c \<noteq> 0 then Reviewer_Lookup_Error else No_Matches)"
  by (induction pre arbitrary: raw)
     (simp_all add: reviewer_loop_step_ok reviewer_loop_step_stop del: reviewer_loop.simps(2))

lemma reviewer_loop_calls_ok:
  "\<forall>c \<in> set commits. commit_ok env ws mf c \<Longrightarrow>
   filter is_maintainer_call (snd (reviewer_loop env ws mf commits raw)) =
     map (maintainer_call ws mf) commits"
  by (induction commits arbitrary: raw)
     (simp_all add: reviewer_loop_step_ok maintainer_call_def del: reviewer_loop.simps(2))

lemma reviewer_loop_calls_stop:
  "\<forall>c \<in> set pre. commit_ok env ws mf c \<Longrightarrow> \<not> commit_ok env ws mf c \<Longrightarrow>
   filter is_maintainer_call (snd (reviewer_loop env ws mf (pre @ c # post) raw)) =
     map (maintainer_call ws mf) (pre @ [c])"
  by (induction pre arbitrary: raw)
     (simp_all add: reviewer_loop_step_ok reviewer_loop_step_stop maintainer_call_def
        del: reviewer_loop.simps(2))

lemma reviewer_loop_no_git:
  "filter is_git_call (snd (reviewer_loop env ws mf commits raw)) = []"
proof (induction commits arbitrary: raw)
  case Nil
  then show ?case by simp
next
  case (Cons c cs)
  then show ?case
    by (cases "commit_ok env ws mf c")
       (simp_all add: reviewer_loop_step_ok reviewer_loop_step_stop maintainer_call_def
          del: reviewer_loop.simps(2))
qed

lemma first_failure:
  assumes "c \<in> set commits" and "\<not> P c"
  shows "\<exists>post. commits = takeWhile P commits @ hd (dropWhile P commits) # post
           \<and> \<not> P (hd (dropWhile P commits))"
proof -
  have ne: "dropWhile P commits \<noteq> []" using assms by auto
  then have "\<not> P (hd (dropWhile P commits))" by (rule hd_dropWhile)
  moreover have "commits = takeWhile P commits @ hd (dropWhile P commits) # tl (dropWhile P commits)"
    using ne by simp
  ultimately show ?thesis by blast
qed

lemma reviewers_of_commits_ok:
  assumes "\<forall>c \<in> set commits. commit_ok env ws mf c"
  shows "fst (reviewers_of_commits env ws mf commits) =
           Inr (fromkeys (map strip (concat (map (commit_matches env ws mf) commits))))"
  using reviewer_loop_ok [OF assms, of "[]"]
  by (cases "reviewer_loop env ws mf commits []")
     (simp add: reviewers_of_commits_def aggregate_def Let_def)

lemma reviewers_of_commits_fails:
  assumes "c \<in> set commits" and "\<not> commit_ok env ws mf c"
  shows "\<exists>e. fst (reviewers_of_commits env ws mf commits) = Inl e"
proof -
  obtain post where "commits = takeWhile (commit_ok env ws mf) commits
      @ hd (dropWhile (commit_ok env ws mf) commits) # post"
    and "\<not> commit_ok env ws mf (hd (dropWhile (commit_ok env ws mf) commits))"
    using first_failure [of c commits "commit_ok env ws mf"] assms by blast
  then have "\<exists>e. fst (reviewer_loop env ws mf commits []) = Inl e"
    using reviewer_loop_stops [of "takeWhile (commit_ok env ws mf) commits" env ws mf
        "hd (dropWhile (commit_ok env ws mf) commits)" post "[]"]
    by (metis set_takeWhileD)
  then show ?thesis
    by (cases "reviewer_loop env ws mf commits []") (auto simp: reviewers_of_commits_def)
qed

section \<open>The whole function\<close>

lemma path_of_commits:
  "fst (resolve_commits env ws rs re) = Inr commits \<Longrightarrow>
   fst (get_reviewers_for_range_path env ws mf rs re) = fst (reviewers_of_commits env ws mf commits)
   \<and> snd (get_reviewers_for_range_path env ws mf rs re) =
       snd (resolve_commits env ws rs re) @ snd (reviewers_of_commits env ws mf commits)"
  by (cases "resolve_commits env ws rs re"; cases "reviewers_of_commits env ws mf commits")
     (simp add: get_reviewers_for_range_path_def)

lemma path_of_no_commits:
  "fst (resolve_commits env ws rs re) = Inl e \<Longrightarrow>
   get_reviewers_for_range_path env ws mf rs re = (Inl e, snd (resolve_commits env ws rs re))"
  by (cases "resolve_commits env ws rs re") (simp add: get_reviewers_for_range_path_def)

lemma get_reviewers_for_range_fst:
  "fst (get_reviewers_for_range env ws mf rs re) =
     (case fst (get_reviewers_for_range_path env ws mf rs re) of Inl e \<Rightarrow> [] | Inr r \<Rightarrow> r)"
  by (cases "get_reviewers_for_range_path env ws mf rs re")
     (simp add: get_reviewers_for_range_def split: sum.splits)

lemma get_reviewers_for_range_snd:
  "snd (get_reviewers_for_range env ws mf rs re) =
     snd (get_reviewers_for_range_path env ws mf rs re)"
  by (cases "get_reviewers_for_range_path env ws mf rs re")
     (simp add: get_reviewers_for_range_def split: sum.splits)

lemma get_reviewers_for_range_ok:
  assumes "fst (resolve_commits env ws rs re) = Inr commits"
    and "\<forall>c \<in> set commits. commit_ok env ws mf c"
  shows "fst (get_reviewers_for_range env ws mf rs re) =
           fromkeys (map strip (concat (map (commit_matches env ws mf) commits)))"
  using path_of_commits [OF assms(1), of mf] reviewers_of_commits_ok [OF assms(2)]
  by (simp add: get_reviewers_for_range_fst)

lemma resolve_commits_cases:
  "(\<exists>commits. fst (resolve_commits env ws rs re) = Inr commits) \<or>
   fst (resolve_commits env ws rs re) = Inl Commit_Lookup_Error"
  by (simp add: resolve_commits_def Let_def split_beta)

section \<open>Tokens without text\<close>

lemma scan_close_found:
  "CHR 0x0A \<notin> set w \<Longrightarrow> scan_close captured (w @ CHR '']'' # post) \<noteq> None"
  by (induction w arbitrary: captured) auto

lemma scan_close_exact:
  "CHR 0x0A \<notin> set w \<Longrightarrow> CHR '']'' \<notin> set w \<Longrightarrow>
   scan_close captured (w @ CHR '']'' # post) = Some (captured @ w, post)"
  by (induction w arbitrary: captured) auto

lemma findall_nonempty:
  "CHR 0x0A \<notin> set w \<Longrightarrow> findall (pre @ CHR ''['' # w @ CHR '']'' # post) \<noteq> []"
proof (induction pre)
  case Nil
  then show ?case using scan_close_found [of w "[]" post] by auto
next
  case (Cons c pre)
  then show ?case by (auto split: option.splits)
qed

lemma isspace_not_bracket: "isspace ch \<Longrightarrow> ch \<noteq> CHR '']''"
  by (auto simp: isspace_def)

lemma strip_blank:
  assumes "\<forall>ch \<in> set w. isspace ch"
  shows "strip w = []"
proof -
  have blank: "dropWhile isspace w = []" using assms by simp
  show ?thesis unfolding strip_def blank by simp
qed

lemma findall_blank_only:
  assumes "\<forall>ch \<in> set w. isspace ch \<and> ch \<noteq> CHR 0x0A"
  shows "findall (CHR ''['' # w @ [CHR '']'']) = [w]"
proof -
  have "CHR 0x0A \<notin> set w" "CHR '']'' \<notin> set w"
    using assms isspace_not_bracket by auto
  then show ?thesis using scan_close_exact [of w "[]" "[]"] by simp
qed

lemma findall_skip: "CHR ''['' \<notin> set pre \<Longrightarrow> findall (pre @ s) = findall s"
  by (induction pre) auto

lemma findall_token:
  "CHR 0x0A \<notin> set w \<Longrightarrow> CHR '']'' \<notin> set w \<Longrightarrow>
   findall (CHR ''['' # w @ CHR '']'' # post) = w # findall post"
  using scan_close_exact [of w "[]" post] by simp

lemma findall_two_tokens:
  assumes "CHR ''['' \<notin> set pre" and "CHR ''['' \<notin> set mid"
    and "CHR 0x0A \<notin> set w1" and "CHR '']'' \<notin> set w1"
    and "CHR 0x0A \<notin> set w2" and "CHR '']'' \<notin> set w2"
  shows "findall (pre @ CHR ''['' # w1 @ CHR '']'' # mid @ CHR ''['' # w2 @ [CHR '']'']) = [w1, w2]"
proof -
  have "findall (pre @ CHR ''['' # w1 @ CHR '']'' # mid @ CHR ''['' # w2 @ [CHR '']'']) =
      findall (CHR ''['' # w1 @ CHR '']'' # mid @ CHR ''['' # w2 @ [CHR '']''])"
    by (rule findall_skip [OF assms(1)])
  also have "\<dots> = w1 # findall (mid @ CHR ''['' # w2 @ [CHR '']''])"
    by (rule findall_token [OF assms(3,4)])
  also have "findall (mid @ CHR ''['' # w2 @ [CHR '']'']) = findall (CHR ''['' # w2 @ [CHR '']''])"
    by (rule findall_skip [OF assms(2)])
  also have "\<dots> = w2 # findall []"
    by (rule findall_token [OF assms(5,6)])
  finally show ?thesis by simp
qed

lemma dropWhile_keeps:
  assumes "s \<noteq> []" and "\<not> P (hd s)"
  shows "dropWhile P (s @ q) = s @ q"
  using assms by (cases s) simp_all

lemma strip_padded:
  assumes "\<forall>ch \<in> set p. isspace ch" and "\<forall>ch \<in> set q. isspace ch"
    and "s \<noteq> []" and "\<not> isspace (hd s)" and "\<not> isspace (last s)"
  shows "strip (p @ s @ q) = s"
proof -
  have "dropWhile isspace (p @ s @ q) = dropWhile isspace (s @ q)"
    by (rule dropWhile_append2) (use assms(1) in auto)
  also have "\<dots> = s @ q"
    using assms(3,4) by (rule dropWhile_keeps [of s isspace q])
  finally have front: "dropWhile isspace (p @ s @ q) = s @ q" .
  have "rev s \<noteq> []" and "\<not> isspace (hd (rev s))"
    using assms(3,5) by (simp_all add: hd_rev)
  then have "dropWhile isspace (rev s @ []) = rev s @ []"
    by (rule dropWhile_keeps [of "rev s" isspace "[]"])
  moreover have "dropWhile isspace (rev q @ rev s) = dropWhile isspace (rev s)"
    by (rule dropWhile_append2) (use assms(2) in auto)
  ultimately have rear: "dropWhile isspace (rev q @ rev s) = rev s" by simp
  show ?thesis unfolding strip_def front using rear by simp
qed

lemma padded_token:
  assumes "\<forall>ch \<in> set (p @ q). isspace ch \<and> ch \<noteq> CHR 0x0A"
    and "s \<noteq> []" and "\<not> isspace (hd s)" and "\<not> isspace (last s)"
    and "CHR 0x0A \<notin> set s" and "CHR '']'' \<notin> set s"
  shows "CHR 0x0A \<notin> set (p @ s @ q)" and "CHR '']'' \<notin> set (p @ s @ q)"
    and "strip (p @ s @ q) = s"
proof -
  have sp: "\<forall>ch \<in> set p. isspace ch" "\<forall>ch \<in> set q. isspace ch"
    using assms(1) by auto
  show "CHR 0x0A \<notin> set (p @ s @ q)" using assms(1,5) by auto
  show "CHR '']'' \<notin> set (p @ s @ q)" using sp assms(6) isspace_not_bracket by auto
  show "strip (p @ s @ q) = s" by (rule strip_padded [OF sp assms(2,3,4)])
qed

section \<open>Properties of \<open>get_reviewers_for_range\<close>\<close>

text \<open>
  C1. When the range resolves to the commits A and B, and the maintainer script succeeds
  with the output \<open>Reviewed-by: [alice] [bob]\<close> for A and \<open>Reviewed-by: [bob] [carol]\<close>
  for B, with or without whitespace (other than a line feed) around each name inside its
  brackets, then: the matches of each commit are the bracketed texts as written, in
  order; the result is these texts in commit order, each stripped of the whitespace
  around it, duplicates dropped after their first occurrence; and that is exactly
  alice, bob, carol.
\<close>

theorem scenario_two_commits:
  assumes "fst (resolve_commits env ws rs re) = Inr [A, B]"
    and "RunPythonScript env mf (''-g '' @ A) ws =
           (0, ''Reviewed-by: ['' @ p1 @ ''alice'' @ p2 @ ''] ['' @ p3 @ ''bob'' @ p4 @ '']'')"
    and "RunPythonScript env mf (''-g '' @ B) ws =
           (0, ''Reviewed-by: ['' @ p5 @ ''bob'' @ p6 @ ''] ['' @ p7 @ ''carol'' @ p8 @ '']'')"
    and "\<forall>ch \<in> set (p1 @ p2 @ p3 @ p4 @ p5 @ p6 @ p7 @ p8). isspace ch \<and> ch \<noteq> CHR 0x0A"
  shows "commit_matches env ws mf A = [p1 @ ''alice'' @ p2, p3 @ ''bob'' @ p4]
    \<and> commit_matches env ws mf B = [p5 @ ''bob'' @ p6, p7 @ ''carol'' @ p8]
    \<and> map strip (commit_matches env ws mf A @ commit_matches env ws mf B) =
        [''alice'', ''bob'', ''bob'', ''carol'']
    \<and> fst (get_reviewers_for_range env ws mf rs re) =
        fromkeys (map strip (commit_matches env ws mf A @ commit_matches env ws mf B))
    \<and> fst (get_reviewers_for_range env ws mf rs re) = [''alice'', ''bob'', ''carol'']"
proof -
  have pad: "\<forall>ch \<in> set (p1 @ p2). isspace ch \<and> ch \<noteq> CHR 0x0A"
    "\<forall>ch \<in> set (p3 @ p4). isspace ch \<and> ch \<noteq> CHR 0x0A"
    "\<forall>ch \<in> set (p5 @ p6). isspace ch \<and> ch \<noteq> CHR 0x0A"
    "\<forall>ch \<in> set (p7 @ p8). isspace ch \<and> ch \<noteq> CHR 0x0A"
    using assms(4) by auto
  note alice = padded_token [OF pad(1), of "''alice''"]
  note bob1 = padded_token [OF pad(2), of "''bob''"]
  note bob2 = padded_token [OF pad(3), of "''bob''"]
  note carol = padded_token [OF pad(4), of "''carol''"]
  have t1: "CHR 0x0A \<notin> set (p1 @ ''alice'' @ p2)" "CHR '']'' \<notin> set (p1 @ ''alice'' @ p2)"
    "strip (p1 @ ''alice'' @ p2) = ''alice''"
    by (rule alice; simp add: isspace_def)+
  have t2: "CHR 0x0A \<notin> set (p3 @ ''bob'' @ p4)" "CHR '']'' \<notin> set (p3 @ ''bob'' @ p4)"
    "strip (p3 @ ''bob'' @ p4) = ''bob''"
    by (rule bob1; simp add: isspace_def)+
  have t3: "CHR 0x0A \<notin> set (p5 @ ''bob'' @ p6)" "CHR '']'' \<notin> set (p5 @ ''bob'' @ p6)"
    "strip (p5 @ ''bob'' @ p6) = ''bob''"
    by (rule bob2; simp add: isspace_def)+
  have t4: "CHR 0x0A \<notin> set (p7 @ ''carol'' @ p8)" "CHR '']'' \<notin> set (p7 @ ''carol'' @ p8)"
    "strip (p7 @ ''carol'' @ p8) = ''carol''"
    by (rule carol; simp add: isspace_def)+
  have outA: "''Reviewed-by: ['' @ p1 @ ''alice'' @ p2 @ ''] ['' @ p3 @ ''bob'' @ p4 @ '']'' =
      ''Reviewed-by: '' @ CHR ''['' # (p1 @ ''alice'' @ p2) @ CHR '']'' # '' '' @
        CHR ''['' # (p3 @ ''bob'' @ p4) @ [CHR '']'']"
    by simp
  have outB: "''Reviewed-by: ['' @ p5 @ ''bob'' @ p6 @ ''] ['' @ p7 @ ''carol'' @ p8 @ '']'' =
      ''Reviewed-by: '' @ CHR ''['' # (p5 @ ''bob'' @ p6) @ CHR '']'' # '' '' @
        CHR ''['' # (p7 @ ''carol'' @ p8) @ [CHR '']'']"
    by simp
  have A: "commit_matches env ws mf A = [p1 @ ''alice'' @ p2, p3 @ ''bob'' @ p4]"
    unfolding commit_matches_def assms(2) snd_conv outA
    by (rule findall_two_tokens [OF _ _ t1(1,2) t2(1,2)]) simp_all
  have B: "commit_matches env ws mf B = [p5 @ ''bob'' @ p6, p7 @ ''carol'' @ p8]"
    unfolding commit_matches_def assms(3) snd_conv outB
    by (rule findall_two_tokens [OF _ _ t3(1,2) t4(1,2)]) simp_all
  have stream: "map strip (commit_matches env ws mf A @ commit_matches env ws mf B) =
        [''alice'', ''bob'', ''bob'', ''carol'']"
    unfolding A B using t1(3) t2(3) t3(3) t4(3) by simp
  have "\<forall>c \<in> set [A, B]. commit_ok env ws mf c"
    using A B assms(2,3) by (simp add: commit_ok_def commit_status_def)
  then have "fst (get_reviewers_for_range env ws mf rs re) =
      fromkeys (map strip (concat (map (commit_matches env ws mf) [A, B])))"
    by (rule get_reviewers_for_range_ok [OF assms(1)])
  then have general: "fst (get_reviewers_for_range env ws mf rs re) =
      fromkeys (map strip (commit_matches env ws mf A @ commit_matches env ws mf B))"
    by simp
  have "fromkeys [''alice'', ''bob'', ''bob'', ''carol''] = [''alice'', ''bob'', ''carol'']"
    by (simp add: fromkeys_def setdefault_key_def)
  with general stream
  have "fst (get_reviewers_for_range env ws mf rs re) = [''alice'', ''bob'', ''carol'']"
    by simp
  with A B stream general show ?thesis by blast
qed


theorem scenario_two_commits_witness:
  "fst (resolve_commits scenario_AB_padded ''ws'' ''master'' ''HEAD'') = Inr [''A'', ''B'']
   \<and> snd (RunPythonScript scenario_AB_padded ''GetMaintainer.py'' ''-g A'' ''ws'')
       = ''Reviewed-by: [ alice ] [bob'' @ [CHR 0x09] @ '']''
   \<and> snd (RunPythonScript scenario_AB_padded ''GetMaintainer.py'' ''-g B'' ''ws'')
       = ''Reviewed-by: ['' @ [CHR 0x09] @ ''bob] [  carol]''
   \<and> commit_matches scenario_AB_padded ''ws'' ''GetMaintainer.py'' ''A''
       = ['' alice '', ''bob'' @ [CHR 0x09]]
   \<and> commit_matches scenario_AB_padded ''ws'' ''GetMaintainer.py'' ''B''
       = [[CHR 0x09] @ ''bob'', ''  carol'']
   \<and> fst (get_reviewers_for_range scenario_AB_padded ''ws'' ''GetMaintainer.py''
         ''master'' ''HEAD'') = [''alice'', ''bob'', ''carol'']
   \<and> fst (resolve_commits scenario_AB ''ws'' ''master'' ''HEAD'') = Inr [''A'', ''B'']
   \<and> RunPythonScript scenario_AB ''GetMaintainer.py'' ''-g A'' ''ws''
       = (0, ''Reviewed-by: [alice] [bob]'')
   \<and> RunPythonScript scenario_AB ''GetMaintainer.py'' ''-g B'' ''ws''
       = (0, ''Reviewed-by: [bob] [carol]'')
   \<and> commit_matches scenario_AB ''ws'' ''GetMaintainer.py'' ''A'' = [''alice'', ''bob'']
   \<and> commit_matches scenario_AB ''ws'' ''GetMaintainer.py'' ''B'' = [''bob'', ''carol'']
   \<and> fst (get_reviewers_for_range scenario_AB ''ws'' ''GetMaintainer.py'' ''master'' ''HEAD'')
       = [''alice'', ''bob'', ''carol'']"
proof -
  have p1: "fst (resolve_commits scenario_AB_padded ''ws'' ''master'' ''HEAD'') = Inr [''A'', ''B'']"
    by (simp add: resolve_commits_def scenario_AB_padded_def splitlines_def is_linebreak_def)
  have p2: "RunPythonScript scenario_AB_padded ''GetMaintainer.py'' (''-g '' @ ''A'') ''ws'' =
      (0, ''Reviewed-by: ['' @ '' '' @ ''alice'' @ '' '' @ ''] ['' @ []
          @ ''bob'' @ [CHR 0x09] @ '']'')"
    by (simp add: scenario_AB_padded_def)
  have p3: "RunPythonScript scenario_AB_padded ''GetMaintainer.py'' (''-g '' @ ''B'') ''ws'' =
      (0, ''Reviewed-by: ['' @ [CHR 0x09] @ ''bob'' @ [] @ ''] ['' @ ''  ''
          @ ''carol'' @ [] @ '']'')"
    by (simp add: scenario_AB_padded_def)
  have p4: "\<forall>ch \<in> set ('' '' @ '' '' @ [] @ [CHR 0x09] @ [CHR 0x09] @ [] @ ''  '' @ []).
      isspace ch \<and> ch \<noteq> CHR 0x0A"
    by (simp add: isspace_def)
  have e1: "fst (resolve_commits scenario_AB ''ws'' ''master'' ''HEAD'') = Inr [''A'', ''B'']"
    by (simp add: resolve_commits_def scenario_AB_def splitlines_def is_linebreak_def)
  have e2: "RunPythonScript scenario_AB ''GetMaintainer.py'' (''-g '' @ ''A'') ''ws'' =
      (0, ''Reviewed-by: ['' @ [] @ ''alice'' @ [] @ ''] ['' @ [] @ ''bob'' @ [] @ '']'')"
    by (simp add: scenario_AB_def)
  have e3: "RunPythonScript scenario_AB ''GetMaintainer.py'' (''-g '' @ ''B'') ''ws'' =
      (0, ''Reviewed-by: ['' @ [] @ ''bob'' @ [] @ ''] ['' @ [] @ ''carol'' @ [] @ '']'')"
    by (simp add: scenario_AB_def)
  have e4: "\<forall>ch \<in> set ([] @ [] @ [] @ [] @ [] @ [] @ [] @ []).
      isspace ch \<and> ch \<noteq> CHR 0x0A"
    by simp
  note padded = scenario_two_commits [OF p1 p2 p3 p4]
  note exact = scenario_two_commits [OF e1 e2 e3 e4]
  have pa: "commit_matches scenario_AB_padded ''ws'' ''GetMaintainer.py'' ''A''
       = ['' alice '', ''bob'' @ [CHR 0x09]]"
    using padded [THEN conjunct1] by simp
  have pb: "commit_matches scenario_AB_padded ''ws'' ''GetMaintainer.py'' ''B''
       = [[CHR 0x09] @ ''bob'', ''  carol'']"
    using padded [THEN conjunct2, THEN conjunct1] by simp
  have pr: "fst (get_reviewers_for_range scenario_AB_padded ''ws'' ''GetMaintainer.py''
         ''master'' ''HEAD'') = [''alice'', ''bob'', ''carol'']"
    using padded [THEN conjunct2, THEN conjunct2, THEN conjunct2, THEN conjunct2] .
  have po: "snd (RunPythonScript scenario_AB_padded ''GetMaintainer.py'' ''-g A'' ''ws'')
       = ''Reviewed-by: [ alice ] [bob'' @ [CHR 0x09] @ '']''"
    "snd (RunPythonScript scenario_AB_padded ''GetMaintainer.py'' ''-g B'' ''ws'')
       = ''Reviewed-by: ['' @ [CHR 0x09] @ ''bob] [  carol]''"
    using p2 p3 by simp_all
  have ea: "commit_matches scenario_AB ''ws'' ''GetMaintainer.py'' ''A'' = [''alice'', ''bob'']"
    using exact [THEN conjunct1] by simp
  have eb: "commit_matches scenario_AB ''ws'' ''GetMaintainer.py'' ''B'' = [''bob'', ''carol'']"
    using exact [THEN conjunct2, THEN conjunct1] by simp
  have er: "fst (get_reviewers_for_range scenario_AB ''ws'' ''GetMaintainer.py''
         ''master'' ''HEAD'') = [''alice'', ''bob'', ''carol'']"
    using exact [THEN conjunct2, THEN conjunct2, THEN conjunct2, THEN conjunct2] .
  have eo: "RunPythonScript scenario_AB ''GetMaintainer.py'' ''-g A'' ''ws''
       = (0, ''Reviewed-by: [alice] [bob]'')"
    "RunPythonScript scenario_AB ''GetMaintainer.py'' ''-g B'' ''ws''
       = (0, ''Reviewed-by: [bob] [carol]'')"
    using e2 e3 by simp_all
  from p1 po pa pb pr e1 eo ea eb er show ?thesis by blast
qed

lemma nonempty_result_all_ok:
  assumes "fst (get_reviewers_for_range env ws mf rs re) \<noteq> []"
  shows "\<exists>commits. fst (resolve_commits env ws rs re) = Inr commits
           \<and> (\<forall>c \<in> set commits. commit_ok env ws mf c)"
proof -
  from resolve_commits_cases [of env ws rs re]
  obtain commits where commits: "fst (resolve_commits env ws rs re) = Inr commits"
    using assms path_of_no_commits [of env ws rs re Commit_Lookup_Error mf]
    by (auto simp: get_reviewers_for_range_fst)
  have "commit_ok env ws mf c" if "c \<in> set commits" for c
  proof (rule ccontr)
    assume "\<not> commit_ok env ws mf c"
    with that obtain e where "fst (reviewers_of_commits env ws mf commits) = Inl e"
      using reviewers_of_commits_fails by blast
    with assms show False
      using path_of_commits [OF commits, of mf] by (simp add: get_reviewers_for_range_fst)
  qed
  with commits show ?thesis by blast
qed

text \<open>
  C2. A non-empty result has no identifier twice, strings compared as they are once
  stripped (\<open>Bob\<close> and \<open>bob\<close> are two identifiers), and holds exactly the stripped
  matches of the commits, each at the place of its first occurrence: of two identifiers,
  the one that occurs first in the stream of stripped matches comes first in the result.
\<close>

theorem no_duplicates_first_occurrence_order:
  assumes "fst (get_reviewers_for_range env ws mf rs re) \<noteq> []"
  shows "\<exists>commits. fst (resolve_commits env ws rs re) = Inr commits \<and>
           (let stream = map strip (concat (map (commit_matches env ws mf) commits));
                reviewers = fst (get_reviewers_for_range env ws mf rs re)
            in distinct reviewers \<and> set reviewers = set stream \<and>
               (\<forall>a \<in> set stream. \<forall>b \<in> set stream.
                  first_index b stream < first_index a stream \<longrightarrow>
                  first_index b reviewers < first_index a reviewers))"
proof -
  obtain commits where commits: "fst (resolve_commits env ws rs re) = Inr commits"
    and ok: "\<forall>c \<in> set commits. commit_ok env ws mf c"
    using nonempty_result_all_ok [OF assms] by blast
  define stream where "stream = map strip (concat (map (commit_matches env ws mf) commits))"
  define reviewers where "reviewers = fst (get_reviewers_for_range env ws mf rs re)"
  have eq: "reviewers = fromkeys stream"
    unfolding reviewers_def stream_def by (rule get_reviewers_for_range_ok [OF commits ok])
  have "distinct reviewers" "set reviewers = set stream"
    by (simp_all add: eq fromkeys_distinct fromkeys_set)
  moreover have "\<forall>a \<in> set stream. \<forall>b \<in> set stream.
      first_index b stream < first_index a stream \<longrightarrow>
      first_index b reviewers < first_index a reviewers"
    unfolding eq by (intro ballI impI) (rule fromkeys_order)
  ultimately show ?thesis
    using commits unfolding Let_def stream_def reviewers_def by blast
qed

lemma mixed_case_result:
  "fst (get_reviewers_for_range mixed_case_reply ''ws'' ''GetMaintainer.py'' ''c0ffee'' ''c0ffee'')
     = [''bob'', ''alice'', ''Bob'']"
  by (simp add: get_reviewers_for_range_def get_reviewers_for_range_path_def resolve_commits_def
        reviewers_of_commits_def aggregate_def mixed_case_reply_def fixed_replies_def
        fromkeys_def setdefault_key_def strip_def isspace_def)

theorem no_duplicates_first_occurrence_order_witness:
  "fst (get_reviewers_for_range mixed_case_reply ''ws'' ''GetMaintainer.py'' ''c0ffee'' ''c0ffee'')
     = [''bob'', ''alice'', ''Bob'']
   \<and> map strip (commit_matches mixed_case_reply ''ws'' ''GetMaintainer.py'' ''c0ffee'')
       = [''bob'', ''alice'', ''Bob'', ''bob'']
   \<and> distinct (fst (get_reviewers_for_range mixed_case_reply ''ws'' ''GetMaintainer.py''
         ''c0ffee'' ''c0ffee''))
   \<and> first_index ''bob'' (fst (get_reviewers_for_range mixed_case_reply ''ws''
         ''GetMaintainer.py'' ''c0ffee'' ''c0ffee''))
       < first_index ''alice'' (fst (get_reviewers_for_range mixed_case_reply ''ws''
         ''GetMaintainer.py'' ''c0ffee'' ''c0ffee''))"
proof -
  have ne: "fst (get_reviewers_for_range mixed_case_reply ''ws'' ''GetMaintainer.py''
      ''c0ffee'' ''c0ffee'') \<noteq> []"
    by (simp add: mixed_case_result)
  have commits: "fst (resolve_commits mixed_case_reply ''ws'' ''c0ffee'' ''c0ffee'') = Inr [''c0ffee'']"
    by (simp add: resolve_commits_def)
  have stream: "map strip (commit_matches mixed_case_reply ''ws'' ''GetMaintainer.py'' ''c0ffee'')
       = [''bob'', ''alice'', ''Bob'', ''bob'']"
    by (simp add: commit_matches_def mixed_case_reply_def fixed_replies_def strip_def isspace_def)
  have idx: "first_index ''bob'' [''bob'', ''alice'', ''Bob'', ''bob'']
      < first_index ''alice'' [''bob'', ''alice'', ''Bob'', ''bob'']"
    by (simp add: first_index_def)
  let ?r = "fst (get_reviewers_for_range mixed_case_reply ''ws'' ''GetMaintainer.py''
      ''c0ffee'' ''c0ffee'')"
  let ?s = "[''bob'', ''alice'', ''Bob'', ''bob'']"
  from no_duplicates_first_occurrence_order [OF ne]
  obtain cs where cs: "fst (resolve_commits mixed_case_reply ''ws'' ''c0ffee'' ''c0ffee'') = Inr cs"
    and props: "let stream = map strip (concat (map (commit_matches mixed_case_reply ''ws''
                    ''GetMaintainer.py'') cs));
                  reviewers = ?r
              in distinct reviewers \<and> set reviewers = set stream \<and>
                 (\<forall>a \<in> set stream. \<forall>b \<in> set stream.
                    first_index b stream < first_index a stream \<longrightarrow>
                    first_index b reviewers < first_index a reviewers)"
    by blast
  have "cs = [''c0ffee'']" using cs commits by simp
  then have st: "map strip (concat (map (commit_matches mixed_case_reply ''ws''
      ''GetMaintainer.py'') cs)) = ?s"
    using stream by simp
  from props have d: "distinct ?r"
    and order: "\<forall>a \<in> set ?s. \<forall>b \<in> set ?s.
      first_index b ?s < first_index a ?s \<longrightarrow> first_index b ?r < first_index a ?r"
    unfolding Let_def st by blast+
  have "''alice'' \<in> set ?s" and "''bob'' \<in> set ?s" by simp_all
  with order idx have "first_index ''bob'' ?r < first_index ''alice'' ?r" by blast
  with d stream show ?thesis by (simp add: mixed_case_result)
qed

lemma reviewer_loop_RunCmd_update:
  "reviewer_loop (env\<lparr>RunCmd := git\<rparr>) ws mf commits raw = reviewer_loop env ws mf commits raw"
  by (induction commits arbitrary: raw) (simp_all add: Let_def split_beta)

lemma path_RunCmd_update:
  "get_reviewers_for_range_path (env\<lparr>RunCmd := git\<rparr>) ws mf r r =
   get_reviewers_for_range_path env ws mf r r"
  by (simp add: get_reviewers_for_range_path_def resolve_commits_def reviewers_of_commits_def
        reviewer_loop_RunCmd_update del: reviewer_loop.simps)

lemma single_commit_calls:
  "filter is_maintainer_call (snd (reviewers_of_commits env ws mf [c])) = [maintainer_call ws mf c]
   \<and> filter is_git_call (snd (reviewers_of_commits env ws mf [c])) = []"
  by (cases "commit_ok env ws mf c")
     (simp_all add: reviewers_of_commits_def reviewer_loop_step_ok reviewer_loop_step_stop
        aggregate_def maintainer_call_def Let_def del: reviewer_loop.simps(2))

text \<open>
  C3. When \<open>range_start\<close> equals \<open>range_end\<close>, the call never runs \<open>git\<close>, runs the
  maintainer script exactly once, for the commit of that name, and returns the same list
  and does the same things whatever the \<open>git\<close> collaborator would answer.
\<close>

theorem single_commit_without_git:
  assumes "range_start = range_end"
  shows "filter is_git_call (snd (get_reviewers_for_range env ws mf range_start range_end)) = []
    \<and> filter is_maintainer_call (snd (get_reviewers_for_range env ws mf range_start range_end))
        = [maintainer_call ws mf range_start]
    \<and> get_reviewers_for_range (env\<lparr>RunCmd := git\<rparr>) ws mf range_start range_end
        = get_reviewers_for_range env ws mf range_start range_end"
proof -
  have commits: "resolve_commits env ws range_start range_end = (Inr [range_start], [])"
    using assms by (simp add: resolve_commits_def)
  then have "snd (get_reviewers_for_range env ws mf range_start range_end) =
      snd (reviewers_of_commits env ws mf [range_start])"
    using path_of_commits [of env ws range_start range_end "[range_start]" mf]
    by (simp add: get_reviewers_for_range_snd)
  moreover have "get_reviewers_for_range (env\<lparr>RunCmd := git\<rparr>) ws mf range_start range_end
        = get_reviewers_for_range env ws mf range_start range_end"
    using assms by (simp add: get_reviewers_for_range_def path_RunCmd_update)
  ultimately show ?thesis by (simp add: single_commit_calls)
qed

theorem single_commit_without_git_witness:
  "filter is_git_call (snd (get_reviewers_for_range scenario_AB ''ws'' ''GetMaintainer.py''
       ''A'' ''A'')) = []
   \<and> filter is_maintainer_call (snd (get_reviewers_for_range scenario_AB ''ws''
       ''GetMaintainer.py'' ''A'' ''A''))
       = [Invoke_RunPythonScript ''GetMaintainer.py'' ''-g A'' ''ws'']
   \<and> get_reviewers_for_range (scenario_AB\<lparr>RunCmd := (\<lambda>cmd params wd. (128, ''fatal''))\<rparr>)
         ''ws'' ''GetMaintainer.py'' ''A'' ''A''
       = get_reviewers_for_range scenario_AB ''ws'' ''GetMaintainer.py'' ''A'' ''A''"
  using single_commit_without_git [of "''A''" "''A''" scenario_AB "''ws''" "''GetMaintainer.py''"
      "\<lambda>cmd params wd. (128, ''fatal'')"]
  by (simp add: maintainer_call_def)

text \<open>
  C4. When \<open>range_start\<close> differs from \<open>range_end\<close> and \<open>git log\<close> returns a status other
  than 0, the call returns the empty list having done two things only: the \<open>git\<close>
  invocation, and one printed error line that holds the status and the captured output.
  The maintainer script is not run.
\<close>

theorem commit_lookup_failure:
  assumes "range_start \<noteq> range_end"
    and "RunCmd env ''git'' (''log --format=format:%H '' @ range_start @ ''..'' @ range_end)
           workspace_path = (cmd_ret, commit_stream)"
    and "cmd_ret \<noteq> 0"
  shows "get_reviewers_for_range env workspace_path maintainer_file_path range_start range_end =
           ([],
            [Invoke_RunCmd ''git'' (''log --format=format:%H '' @ range_start @ ''..'' @ range_end)
               workspace_path,
             Print (''::error title=Commit Lookup Error!::Error getting branch commits: [''
                    @ str_int cmd_ret @ '']: '' @ commit_stream)])
         \<and> filter is_maintainer_call
              (snd (get_reviewers_for_range env workspace_path maintainer_file_path
                      range_start range_end)) = []"
  using assms
  by (simp add: get_reviewers_for_range_def get_reviewers_for_range_path_def resolve_commits_def)

theorem commit_lookup_failure_witness:
  "get_reviewers_for_range (fixed_replies 128 ''fatal: bad revision'' 0 ''[alice]'')
       ''ws'' ''GetMaintainer.py'' ''master'' ''HEAD'' =
     ([],
      [Invoke_RunCmd ''git'' ''log --format=format:%H master..HEAD'' ''ws'',
       Print ''::error title=Commit Lookup Error!::Error getting branch commits: [128]: fatal: bad revision''])"
proof -
  have 1: "''master'' \<noteq> ''HEAD''" by simp
  have 2: "RunCmd (fixed_replies 128 ''fatal: bad revision'' 0 ''[alice]'') ''git''
      (''log --format=format:%H '' @ ''master'' @ ''..'' @ ''HEAD'') ''ws''
      = (128, ''fatal: bad revision'')"
    by (simp add: fixed_replies_def)
  have 3: "(128::int) \<noteq> 0" by simp
  have s: "str_int 128 = ''128''"
    by (simp add: str_int_def str_nat.simps digit_def)
  from commit_lookup_failure [OF 1 2 3, of "''GetMaintainer.py''"] show ?thesis
    by (simp add: s)
qed

text \<open>
  C5. When the range resolves to a list of commits and, for one of them, the maintainer
  script returns a status other than 0 or its output has no bracketed token, the call
  returns the empty list, and the maintainer script has been run for the commits up to
  and including the first such commit and for no commit after it.
\<close>

theorem fail_fast:
  assumes "fst (resolve_commits env ws rs re) = Inr commits"
    and "c \<in> set commits"
    and "commit_status env ws mf c \<noteq> 0 \<or> commit_matches env ws mf c = []"
  shows "fst (get_reviewers_for_range env ws mf rs re) = []
    \<and> filter is_maintainer_call (snd (get_reviewers_for_range env ws mf rs re)) =
        map (maintainer_call ws mf)
          (take (Suc (length (takeWhile (commit_ok env ws mf) commits))) commits)"
proof -
  have bad: "\<not> commit_ok env ws mf c" using assms(3) by (auto simp: commit_ok_def)
  define pre where "pre = takeWhile (commit_ok env ws mf) commits"
  define d where "d = hd (dropWhile (commit_ok env ws mf) commits)"
  obtain post where split: "commits = pre @ d # post" and d: "\<not> commit_ok env ws mf d"
    using first_failure [of c commits "commit_ok env ws mf"] assms(2) bad
    unfolding pre_def d_def by blast
  have pre: "\<forall>x \<in> set pre. commit_ok env ws mf x"
    unfolding pre_def by (auto dest: set_takeWhileD)
  have "\<exists>e. fst (reviewers_of_commits env ws mf commits) = Inl e"
    using reviewers_of_commits_fails [OF assms(2) bad] .
  then have result: "fst (get_reviewers_for_range env ws mf rs re) = []"
    using path_of_commits [OF assms(1), of mf] by (auto simp: get_reviewers_for_range_fst)
  have no_calls: "filter is_maintainer_call (snd (resolve_commits env ws rs re)) = []"
    by (simp add: resolve_commits_def Let_def split_beta)
  have "fst (reviewer_loop env ws mf commits []) =
      Inl (if commit_status env ws mf d \<noteq> 0 then Reviewer_Lookup_Error else No_Matches)"
    unfolding split by (rule reviewer_loop_stops [OF pre d])
  then have "snd (reviewers_of_commits env ws mf commits) = snd (reviewer_loop env ws mf commits [])"
    by (cases "reviewer_loop env ws mf commits []") (simp add: reviewers_of_commits_def)
  then have "filter is_maintainer_call (snd (reviewers_of_commits env ws mf commits)) =
      map (maintainer_call ws mf) (pre @ [d])"
    using reviewer_loop_calls_stop [OF pre d, of post "[]"] by (simp add: split)
  moreover have "take (Suc (length pre)) commits = pre @ [d]"
    by (simp add: split)
  ultimately have "filter is_maintainer_call (snd (get_reviewers_for_range env ws mf rs re)) =
        map (maintainer_call ws mf) (take (Suc (length pre)) commits)"
    using path_of_commits [OF assms(1), of mf] no_calls
    by (simp add: get_reviewers_for_range_snd)
  with result show ?thesis unfolding pre_def by simp
qed

theorem fail_fast_witness:
  "fst (resolve_commits second_commit_silent ''ws'' ''master'' ''HEAD'')
     = Inr [''c1'', ''c2'', ''c3'']
   \<and> commit_matches second_commit_silent ''ws'' ''GetMaintainer.py'' ''c2'' = []
   \<and> fst (get_reviewers_for_range second_commit_silent ''ws'' ''GetMaintainer.py''
         ''master'' ''HEAD'') = []
   \<and> filter is_maintainer_call (snd (get_reviewers_for_range second_commit_silent ''ws''
         ''GetMaintainer.py'' ''master'' ''HEAD''))
       = [Invoke_RunPythonScript ''GetMaintainer.py'' ''-g c1'' ''ws'',
          Invoke_RunPythonScript ''GetMaintainer.py'' ''-g c2'' ''ws'']"
proof -
  have 1: "fst (resolve_commits second_commit_silent ''ws'' ''master'' ''HEAD'')
     = Inr [''c1'', ''c2'', ''c3'']"
    by (simp add: resolve_commits_def second_commit_silent_def splitlines_def is_linebreak_def)
  have 2: "''c2'' \<in> set [''c1'', ''c2'', ''c3'']" by simp
  have m: "commit_matches second_commit_silent ''ws'' ''GetMaintainer.py'' ''c2'' = []"
    by (simp add: commit_matches_def second_commit_silent_def)
  then have 3: "commit_status second_commit_silent ''ws'' ''GetMaintainer.py'' ''c2'' \<noteq> 0
      \<or> commit_matches second_commit_silent ''ws'' ''GetMaintainer.py'' ''c2'' = []"
    by simp
  have t: "takeWhile (commit_ok second_commit_silent ''ws'' ''GetMaintainer.py'')
      [''c1'', ''c2'', ''c3''] = [''c1'']"
    by (simp add: commit_ok_def commit_status_def commit_matches_def second_commit_silent_def)
  from fail_fast [OF 1 2 3, unfolded t] m 1 show ?thesis
    by (simp add: maintainer_call_def)
qed

text \<open>
  C6. The three ways to fail all return the empty list, but not all print: a commit
  whose output has no bracketed token ends the call without any printed line, where the
  two lookup failures each print an error line first.
\<close>

theorem no_matches_prints_nothing:
  "get_reviewers_for_range (fixed_replies 0 [] 0 ''no maintainer found'')
       ''ws'' ''GetMaintainer.py'' ''c0ffee'' ''c0ffee'' =
     ([], [Invoke_RunPythonScript ''GetMaintainer.py'' ''-g c0ffee'' ''ws''])
   \<and> filter is_print
         (snd (get_reviewers_for_range (fixed_replies 0 [] 0 ''no maintainer found'')
                 ''ws'' ''GetMaintainer.py'' ''c0ffee'' ''c0ffee'')) = []"
  by (simp add: get_reviewers_for_range_def get_reviewers_for_range_path_def resolve_commits_def
        reviewers_of_commits_def fixed_replies_def)

text \<open>
  C10 as stated fails for a line feed between the brackets: \<open>.\<close> does not match it, so
  the output \<open>[\<close>, line feed, \<open>]\<close> has no match and the call leaves by the zero-matches
  branch.
\<close>

theorem line_feed_token_is_no_match:
  "isspace (CHR 0x0A)
   \<and> get_reviewers_for_range_path (fixed_replies 0 [] 0 [CHR ''['', CHR 0x0A, CHR '']''])
         ''ws'' ''GetMaintainer.py'' ''c0ffee'' ''c0ffee''
       = (Inl No_Matches, [Invoke_RunPythonScript ''GetMaintainer.py'' ''-g c0ffee'' ''ws''])"
  by (simp add: isspace_def get_reviewers_for_range_path_def resolve_commits_def
        reviewers_of_commits_def fixed_replies_def)

text \<open>
  C10, amended. A bracket pair around nothing, or around whitespace other than a line
  feed, is a match: a commit whose output holds such a pair has matches, so that after a
  status of 0 the loop goes on to the next commit with them; and when the pair is the
  whole output of the only commit, the call returns the list holding the empty string.
\<close>

theorem blank_token_is_a_match:
  assumes "snd (RunPythonScript env mf (''-g '' @ c) ws) = pre @ ''['' @ w @ '']'' @ post"
    and "\<forall>ch \<in> set w. isspace ch \<and> ch \<noteq> CHR 0x0A"
  shows "commit_matches env ws mf c \<noteq> []
    \<and> (commit_status env ws mf c = 0 \<longrightarrow>
         fst (reviewer_loop env ws mf (c # commits) raw) =
         fst (reviewer_loop env ws mf commits (raw @ commit_matches env ws mf c)))
    \<and> (commit_status env ws mf c = 0 \<and> pre = [] \<and> post = [] \<longrightarrow>
         get_reviewers_for_range_path env ws mf c c =
           (Inr [[]],
            [maintainer_call ws mf c,
             Print (''::debug title=Commit '' @ take 7 c @ '' Reviewer(s)::'' @ w),
             Print ''::debug title=Total Reviewer Set::''])
         \<and> fst (get_reviewers_for_range env ws mf c c) = [[]])"
proof -
  have nl: "CHR 0x0A \<notin> set w" using assms(2) by auto
  have m: "commit_matches env ws mf c \<noteq> []"
    unfolding commit_matches_def assms(1) using findall_nonempty [OF nl, of pre post] by simp
  have step: "fst (reviewer_loop env ws mf (c # commits) raw) =
         fst (reviewer_loop env ws mf commits (raw @ commit_matches env ws mf c))"
    if "commit_status env ws mf c = 0"
    using that m by (simp add: reviewer_loop_step_ok commit_ok_def del: reviewer_loop.simps(2))
  have whole: "get_reviewers_for_range_path env ws mf c c =
           (Inr [[]],
            [maintainer_call ws mf c,
             Print (''::debug title=Commit '' @ take 7 c @ '' Reviewer(s)::'' @ w),
             Print ''::debug title=Total Reviewer Set::''])
         \<and> fst (get_reviewers_for_range env ws mf c c) = [[]]"
    if "commit_status env ws mf c = 0" "pre = []" "post = []"
  proof -
    have ms: "commit_matches env ws mf c = [w]"
      unfolding commit_matches_def assms(1) using findall_blank_only [OF assms(2)] that by simp
    then have ok: "commit_ok env ws mf c" using that by (simp add: commit_ok_def)
    have blank: "strip w = []" using assms(2) by (simp add: strip_blank)
    have "get_reviewers_for_range_path env ws mf c c =
           (Inr [[]],
            [maintainer_call ws mf c,
             Print (''::debug title=Commit '' @ take 7 c @ '' Reviewer(s)::'' @ w),
             Print ''::debug title=Total Reviewer Set::''])"
      by (simp add: get_reviewers_for_range_path_def resolve_commits_def reviewers_of_commits_def
            reviewer_loop_step_ok [OF ok] ms aggregate_def blank fromkeys_def setdefault_key_def
          del: reviewer_loop.simps(2))
    then show ?thesis by (simp add: get_reviewers_for_range_def)
  qed
  from m step whole show ?thesis by blast
qed

theorem blank_token_is_a_match_witness:
  "snd (RunPythonScript (fixed_replies 0 [] 0 ''[ ]'') ''GetMaintainer.py'' (''-g '' @ ''c0ffee'')
      ''ws'') = [] @ ''['' @ '' '' @ '']'' @ []
   \<and> isspace CHR '' ''
   \<and> commit_matches (fixed_replies 0 [] 0 ''[ ]'') ''ws'' ''GetMaintainer.py'' ''c0ffee'' \<noteq> []
   \<and> fst (get_reviewers_for_range (fixed_replies 0 [] 0 ''[ ]'') ''ws'' ''GetMaintainer.py''
        ''c0ffee'' ''c0ffee'') = [[]]"
proof -
  have 1: "snd (RunPythonScript (fixed_replies 0 [] 0 ''[ ]'') ''GetMaintainer.py''
      (''-g '' @ ''c0ffee'') ''ws'') = [] @ ''['' @ '' '' @ '']'' @ []"
    by (simp add: fixed_replies_def)
  have sp: "isspace CHR '' ''" by (simp add: isspace_def)
  then have 2: "\<forall>ch \<in> set '' ''. isspace ch \<and> ch \<noteq> CHR 0x0A" by simp
  have 3: "commit_status (fixed_replies 0 [] 0 ''[ ]'') ''ws'' ''GetMaintainer.py'' ''c0ffee'' = 0"
    by (simp add: commit_status_def fixed_replies_def)
  from blank_token_is_a_match [OF 1 2, where commits = "[]" and raw = "[]"] 1 sp 3 show ?thesis
    by simp
qed

section \<open>Properties of \<open>get_pr_sha\<close>\<close>

text \<open>
  C7 as stated fails for a status that is neither 2xx nor an error to
  \<open>raise_for_status\<close>: on 304 with no body the call prints nothing and ends in the
  \<open>JSONDecodeError\<close> of \<open>response.json()\<close>.
\<close>

theorem not_modified_is_no_http_error:
  "get_pr_sha (always_respond not_modified) ''token'' ''tianocore'' ''edk2'' ''42'' =
     (Inl JSONDecodeError,
      [Http_Get ''https://api.github.com/repos/tianocore/edk2/pulls/42''
         [(''Authorization'', ''Bearer token''),
          (''Accept'', ''application/vnd.github.v3+json'')]])"
  by (simp add: get_pr_sha_def always_respond_def not_modified_def raise_for_status_def
        response_json_def pulls_url_def api_headers_def)

text \<open>
  C7, amended. Given the response to the GET: when its status is 4xx or 5xx the call
  returns the empty string, having printed one error line with the reason, and raises
  nothing; when its status is any other and its body is a JSON object with a member
  \<open>merge_commit_sha\<close>, the call returns the value of that member.
\<close>

theorem get_pr_sha_result:
  assumes "requests_get http (pulls_url owner repo pr_number) (api_headers token) = Inr response"
  shows "(400 \<le> status_code response \<and> status_code response < 600 \<longrightarrow>
            get_pr_sha http token owner repo pr_number =
              (Inr (JStr []),
               [Http_Get (pulls_url owner repo pr_number) (api_headers token),
                Print (''::error title=HTTP Error!::Error getting PR Commit Info: ''
                       @ reason response)]))
       \<and> (\<not> (400 \<le> status_code response \<and> status_code response < 600) \<and>
          body response = Some (JObj items) \<and>
          map_of items ''merge_commit_sha'' = Some commit_sha \<longrightarrow>
            fst (get_pr_sha http token owner repo pr_number) = Inr commit_sha)"
  using assms
  by (auto simp: get_pr_sha_def raise_for_status_def response_json_def Let_def)

theorem get_pr_sha_result_witness:
  "get_pr_sha (always_respond not_found) ''token'' ''tianocore'' ''edk2'' ''42'' =
     (Inr (JStr []),
      [Http_Get ''https://api.github.com/repos/tianocore/edk2/pulls/42''
         [(''Authorization'', ''Bearer token''),
          (''Accept'', ''application/vnd.github.v3+json'')],
       Print ''::error title=HTTP Error!::Error getting PR Commit Info: Not Found''])
   \<and> fst (get_pr_sha (always_respond (pull_request ''alice'' ''5f1e2a''))
         ''token'' ''tianocore'' ''edk2'' ''42'') = Inr (JStr ''5f1e2a'')"
proof -
  have 1: "requests_get (always_respond not_found) (pulls_url ''tianocore'' ''edk2'' ''42'')
      (api_headers ''token'') = Inr not_found"
    by (simp add: always_respond_def)
  have 2: "requests_get (always_respond (pull_request ''alice'' ''5f1e2a''))
      (pulls_url ''tianocore'' ''edk2'' ''42'') (api_headers ''token'')
      = Inr (pull_request ''alice'' ''5f1e2a'')"
    by (simp add: always_respond_def)
  have 3: "body (pull_request ''alice'' ''5f1e2a'') =
      Some (JObj [(''user'', JObj [(''login'', JStr ''alice'')]),
                  (''merge_commit_sha'', JStr ''5f1e2a'')])"
    by (simp add: pull_request_def)
  from get_pr_sha_result [OF 1]
  have a: "get_pr_sha (always_respond not_found) ''token'' ''tianocore'' ''edk2'' ''42'' =
     (Inr (JStr []),
      [Http_Get (pulls_url ''tianocore'' ''edk2'' ''42'') (api_headers ''token''),
       Print (''::error title=HTTP Error!::Error getting PR Commit Info: ''
              @ reason not_found)])"
    by (simp add: not_found_def)
  from get_pr_sha_result [OF 2, where commit_sha = "JStr ''5f1e2a''"] 3
  have b: "fst (get_pr_sha (always_respond (pull_request ''alice'' ''5f1e2a''))
         ''token'' ''tianocore'' ''edk2'' ''42'') = Inr (JStr ''5f1e2a'')"
    by (simp add: pull_request_def)
  from a b show ?thesis
    by (simp add: pulls_url_def api_headers_def not_found_def)
qed

section \<open>Properties of \<open>add_reviewers_to_pr\<close>\<close>

lemma py_remove_present: "a \<in> set xs \<Longrightarrow> py_remove a xs = Inr (remove1 a xs)"
  by (induction xs) auto

lemma filter_remove1_same: "filter (\<lambda>x. x \<noteq> a) (remove1 a xs) = filter (\<lambda>x. x \<noteq> a) xs"
  by (induction xs) auto

lemma remove_while_present_filter:
  "remove_while_present a xs = (Inr (), filter (\<lambda>x. x \<noteq> a) xs)"
proof (induction a xs rule: remove_while_present.induct)
  case (1 a xs)
  show ?case
  proof (cases "a \<in> set xs")
    case True
    then have "remove_while_present a xs = remove_while_present a (remove1 a xs)"
      by (subst remove_while_present.simps) (simp add: py_remove_present)
    also have "\<dots> = (Inr (), filter (\<lambda>x. x \<noteq> a) (remove1 a xs))"
      using True by (intro "1.IH") (simp_all add: py_remove_present)
    finally show ?thesis by (simp add: filter_remove1_same)
  next
    case False
    then have "filter (\<lambda>x. x \<noteq> a) xs = xs" by (induction xs) auto
    with False show ?thesis by (subst remove_while_present.simps) simp
  qed
qed

lemma comments_url_differs:
  "comments_url owner repo pr_number \<noteq> requested_reviewers_url owner repo pr_number"
  by (simp add: comments_url_def requested_reviewers_url_def)

lemma leave_pr_comment_posts:
  "filter (posted_to (requested_reviewers_url owner repo pr_number))
     (snd (leave_pr_comment http token owner repo pr_number comment_body)) = []"
  by (simp add: leave_pr_comment_def Let_def comments_url_differs split: sum.splits)

lemma on_reviewers_response_posts:
  "filter (posted_to (requested_reviewers_url owner repo pr_number))
     (snd (on_reviewers_response http token owner repo pr_number user_names response)) = []"
  using leave_pr_comment_posts [of owner repo pr_number http token]
  by (simp add: on_reviewers_response_def split_beta split: sum.splits)

lemma add_reviewers_to_pr_after_lookup:
  assumes "requests_get http (pulls_url owner repo pr_number) (api_headers token) = Inr response"
    and "status_code response = 200"
    and "pr_author_of response = Inr pr_author"
  shows "fst (snd (add_reviewers_to_pr http token owner repo pr_number user_names)) =
           filter (\<lambda>u. u \<noteq> pr_author) user_names"
    and "filter (posted_to (requested_reviewers_url owner repo pr_number))
           (snd (snd (add_reviewers_to_pr http token owner repo pr_number user_names))) =
         [Http_Post (requested_reviewers_url owner repo pr_number)
            (reviewers_payload (filter (\<lambda>u. u \<noteq> pr_author) user_names))
            (api_headers token)]"
  using assms on_reviewers_response_posts [of owner repo pr_number http token]
  by (simp_all add: add_reviewers_to_pr_def remove_while_present_filter Let_def split_beta
        split: sum.splits)

text \<open>
  C8. When the GET for the pull request answers 200 with a login, the one POST to the
  requested-reviewers endpoint carries the candidate list without any occurrence of the
  stripped login: the author is not among the reviewers posted.
\<close>

theorem author_not_posted:
  assumes "requests_get http (pulls_url owner repo pr_number) (api_headers token) = Inr response"
    and "status_code response = 200"
    and "pr_author_of response = Inr pr_author"
  shows "\<exists>posted.
           filter (posted_to (requested_reviewers_url owner repo pr_number))
             (snd (snd (add_reviewers_to_pr http token owner repo pr_number user_names))) =
           [Http_Post (requested_reviewers_url owner repo pr_number)
              (reviewers_payload posted) (api_headers token)]
         \<and> posted = filter (\<lambda>u. u \<noteq> pr_author) user_names
         \<and> pr_author \<notin> set posted"
  using add_reviewers_to_pr_after_lookup(2) [OF assms] by simp

theorem author_not_posted_witness:
  "pr_author_of (pull_request '' alice '' ''5f1e2a'') = Inr ''alice''
   \<and> filter (posted_to ''https://api.github.com/repos/tianocore/edk2/pulls/42/requested_reviewers'')
       (snd (snd (add_reviewers_to_pr (always_respond (pull_request '' alice '' ''5f1e2a''))
          ''token'' ''tianocore'' ''edk2'' ''42'' [''bob'', ''alice'', ''carol'', ''alice''])))
     = [Http_Post ''https://api.github.com/repos/tianocore/edk2/pulls/42/requested_reviewers''
          (JObj [(''reviewers'', JArr [JStr ''bob'', JStr ''carol''])])
          [(''Authorization'', ''Bearer token''),
           (''Accept'', ''application/vnd.github.v3+json'')]]"
proof -
  have 1: "requests_get (always_respond (pull_request '' alice '' ''5f1e2a''))
      (pulls_url ''tianocore'' ''edk2'' ''42'') (api_headers ''token'')
      = Inr (pull_request '' alice '' ''5f1e2a'')"
    by (simp add: always_respond_def)
  have 2: "status_code (pull_request '' alice '' ''5f1e2a'') = 200"
    by (simp add: pull_request_def)
  have 3: "pr_author_of (pull_request '' alice '' ''5f1e2a'') = Inr ''alice''"
    by (simp add: pr_author_of_def pull_request_def response_json_def strip_def isspace_def)
  from author_not_posted [OF 1 2 3, of "[''bob'', ''alice'', ''carol'', ''alice'']"] 3
  show ?thesis
    by (simp add: requested_reviewers_url_def reviewers_payload_def api_headers_def)
qed

text \<open>
  C9. When the GET for the pull request answers 200 with a login, the caller's list is
  left as the candidate list without the occurrences of the stripped login: every other
  element stays, in the order it had.
\<close>

theorem user_names_mutated:
  assumes "requests_get http (pulls_url owner repo pr_number) (api_headers token) = Inr response"
    and "status_code response = 200"
    and "pr_author_of response = Inr pr_author"
  shows "fst (snd (add_reviewers_to_pr http token owner repo pr_number user_names)) =
           filter (\<lambda>u. u \<noteq> pr_author) user_names
       \<and> pr_author \<notin> set (fst (snd (add_reviewers_to_pr http token owner repo pr_number
                                     user_names)))"
  using add_reviewers_to_pr_after_lookup(1) [OF assms] by simp

theorem user_names_mutated_witness:
  "add_reviewers_to_pr (always_respond (pull_request '' alice '' ''5f1e2a''))
      ''token'' ''tianocore'' ''edk2'' ''42'' [''bob'', ''alice'', ''carol'', ''alice''] =
     (Inr (), [''bob'', ''carol''],
      [Http_Get ''https://api.github.com/repos/tianocore/edk2/pulls/42''
         [(''Authorization'', ''Bearer token''),
          (''Accept'', ''application/vnd.github.v3+json'')],
       Http_Post ''https://api.github.com/repos/tianocore/edk2/pulls/42/requested_reviewers''
         (JObj [(''reviewers'', JArr [JStr ''bob'', JStr ''carol''])])
         [(''Authorization'', ''Bearer token''),
          (''Accept'', ''application/vnd.github.v3+json'')]])
   \<and> fst (snd (add_reviewers_to_pr (always_respond (pull_request '' alice '' ''5f1e2a''))
        ''token'' ''tianocore'' ''edk2'' ''42'' [''bob'', ''alice'', ''carol'', ''alice'']))
       = [''bob'', ''carol'']"
proof -
  have 1: "requests_get (always_respond (pull_request '' alice '' ''5f1e2a''))
      (pulls_url ''tianocore'' ''edk2'' ''42'') (api_headers ''token'')
      = Inr (pull_request '' alice '' ''5f1e2a'')"
    by (simp add: always_respond_def)
  have 2: "status_code (pull_request '' alice '' ''5f1e2a'') = 200"
    by (simp add: pull_request_def)
  have 3: "pr_author_of (pull_request '' alice '' ''5f1e2a'') = Inr ''alice''"
    by (simp add: pr_author_of_def pull_request_def response_json_def strip_def isspace_def)
  from user_names_mutated [OF 1 2 3, of "[''bob'', ''alice'', ''carol'', ''alice'']"]
  have after: "fst (snd (add_reviewers_to_pr (always_respond (pull_request '' alice '' ''5f1e2a''))
        ''token'' ''tianocore'' ''edk2'' ''42'' [''bob'', ''alice'', ''carol'', ''alice'']))
       = [''bob'', ''carol'']"
    by simp
  have "add_reviewers_to_pr (always_respond (pull_request '' alice '' ''5f1e2a''))
      ''token'' ''tianocore'' ''edk2'' ''42'' [''bob'', ''alice'', ''carol'', ''alice''] =
     (Inr (), [''bob'', ''carol''],
      [Http_Get ''https://api.github.com/repos/tianocore/edk2/pulls/42''
         [(''Authorization'', ''Bearer token''),
          (''Accept'', ''application/vnd.github.v3+json'')],
       Http_Post ''https://api.github.com/repos/tianocore/edk2/pulls/42/requested_reviewers''
         (JObj [(''reviewers'', JArr [JStr ''bob'', JStr ''carol''])])
         [(''Authorization'', ''Bearer token''),
          (''Accept'', ''application/vnd.github.v3+json'')]])"
    using 3
    by (simp add: add_reviewers_to_pr_def always_respond_def remove_while_present_filter
          on_reviewers_response_def raise_for_status_def pull_request_def reviewers_payload_def
          requested_reviewers_url_def pulls_url_def api_headers_def Let_def)
  with after show ?thesis by simp
qed

end
